theory Spec2Isabelle
  imports Main
begin

section \<open>JavaScript values used by the hex edit view\<close>

text \<open>
  A JavaScript string is a sequence of UTF-16 code units. An object received from the
  backend is a finite set of named properties; reading a property that is not there gives
  \<open>undefined\<close>, so an object is a total function from property names to values.
\<close>

type_synonym js_string = "nat list"

datatype js_value =
  Undefined | Null | Bool bool | Num int | Str js_string | Arr "js_value list"

type_synonym js_object = "string \<Rightarrow> js_value"

datatype js_error = Error string | InvalidCharacterError | TypeError

definition js_str :: "string \<Rightarrow> js_string" where
  "js_str s = map of_char s"

text \<open>
  The expression \<open>v[0]\<close>: a TypeError on \<open>undefined\<close> and \<open>null\<close>, the first code unit
  (as a string of length one) of a string, the first element of an array, and
  \<open>undefined\<close> when the string or the array is empty and on a boolean or a number.
\<close>

fun index0 :: "js_value \<Rightarrow> js_error + js_value" where
  "index0 Undefined = Inl TypeError"
| "index0 Null = Inl TypeError"
| "index0 (Bool b) = Inr Undefined"
| "index0 (Num n) = Inr Undefined"
| "index0 (Str []) = Inr Undefined"
| "index0 (Str (c # cs)) = Inr (Str [c])"
| "index0 (Arr []) = Inr Undefined"
| "index0 (Arr (x # xs)) = Inr x"

text \<open>
  A notion used to state properties, not part of the program: whether a value is a
  sequence, that is an array or a string.
\<close>

fun is_sequence :: "js_value \<Rightarrow> bool" where
  "is_sequence (Arr xs) = True"
| "is_sequence (Str s) = True"
| "is_sequence Undefined = False"
| "is_sequence Null = False"
| "is_sequence (Bool b) = False"
| "is_sequence (Num n) = False"

section \<open>TauriWrappers.ts\<close>

record FileReadResult =
  file_index :: int
  file_data :: js_string

text \<open>
  \<open>invoke\<close> is the Tauri bridge; its outcome is a parameter of the model: \<open>Inl e\<close> when the
  backend rejects with the (stringified) error \<open>e\<close>, \<open>Inr r\<close> when it resolves with \<open>r\<close>.
  Both wrappers rethrow a rejection as \<open>new Error(`${error}`)\<close>.
\<close>

definition readFile :: "string + FileReadResult \<Rightarrow> js_error + FileReadResult" where
  "readFile outcome = (case outcome of Inl error \<Rightarrow> Inl (Error error) | Inr res \<Rightarrow> Inr res)"

definition getDataInPosition :: "string + js_object \<Rightarrow> js_error + js_object" where
  "getDataInPosition outcome = (case outcome of Inl error \<Rightarrow> Inl (Error error) | Inr f \<Rightarrow> Inr f)"

section \<open>State of the component\<close>

datatype command = read_file int int | get_data_in_position int int

text \<open>
  The four \<open>useState\<close> cells and the \<open>readError\<close> ref, with three logs for what leaves
  the component: the calls of the \<open>notification\<close> prop, the backend commands invoked,
  and the promise rejections that no handler catches. A cell of \<open>hexData\<close> is \<open>None\<close>
  where the array has a hole.
\<close>

record view_state =
  fromPosition :: int
  hexData :: "nat option list"
  positionByteValues :: "js_object option"
  bigEndian :: bool
  readError :: bool
  notified :: "(string \<times> string) list"
  invoked :: "command list"
  unhandled :: "js_error list"

definition initial_state :: view_state where
  "initial_state = \<lparr>fromPosition = 0, hexData = [], positionByteValues = None,
     bigEndian = False, readError = False, notified = [], invoked = [], unhandled = []\<rparr>"

section \<open>onHexValueChange\<close>

text \<open>
  \<open>a[i] = v\<close> on a JavaScript array: inside the array it replaces the entry; at or past
  the end it extends the array, leaving holes in between.
\<close>

definition array_set :: "'a option list \<Rightarrow> nat \<Rightarrow> 'a \<Rightarrow> 'a option list" where
  "array_set xs i v =
     (if i < length xs then xs[i := Some v]
      else xs @ replicate (i - length xs) None @ [Some v])"

definition onHexValueChange :: "nat \<Rightarrow> nat \<Rightarrow> view_state \<Rightarrow> view_state" where
  "onHexValueChange value bytePosition st =
     (let modifyHexData = hexData st;
          modifyHexData = array_set modifyHexData bytePosition value
      in st\<lparr>hexData := modifyHexData\<rparr>)"

section \<open>onFilePositionChange\<close>

text \<open>
  Calling the handler invokes the backend; nothing else happens until the promise settles.
\<close>

definition onFilePositionChange :: "int \<Rightarrow> int \<Rightarrow> view_state \<Rightarrow> view_state" where
  "onFilePositionChange fileIndex value st =
     st\<lparr>invoked := invoked st @ [get_data_in_position fileIndex value]\<rparr>"

text \<open>
  The \<open>then\<close> callback: the object literal spreads \<open>f\<close> and overrides six properties, each
  with \<open>[0]\<close> of the property of \<open>f\<close>; a TypeError in any of them leaves the state as it was.
\<close>

definition onFilePositionChange_then :: "js_object \<Rightarrow> view_state \<Rightarrow> js_error + view_state" where
  "onFilePositionChange_then f st =
     (case index0 (f ''char_le_utf8'') of Inl e \<Rightarrow> Inl e | Inr le8 \<Rightarrow>
      case index0 (f ''char_le_utf16'') of Inl e \<Rightarrow> Inl e | Inr le16 \<Rightarrow>
      case index0 (f ''char_le_utf32'') of Inl e \<Rightarrow> Inl e | Inr le32 \<Rightarrow>
      case index0 (f ''char_be_utf8'') of Inl e \<Rightarrow> Inl e | Inr be8 \<Rightarrow>
      case index0 (f ''char_be_utf16'') of Inl e \<Rightarrow> Inl e | Inr be16 \<Rightarrow>
      case index0 (f ''char_be_utf32'') of Inl e \<Rightarrow> Inl e | Inr be32 \<Rightarrow>
        Inr (st\<lparr>positionByteValues := Some (f(
               ''char_le_utf8'' := le8,
               ''char_le_utf16'' := le16,
               ''char_le_utf32'' := le32,
               ''char_be_utf8'' := be8,
               ''char_be_utf16'' := be16,
               ''char_be_utf32'' := be32))\<rparr>))"

text \<open>
  The promise of \<open>getDataInPosition(...).then(...)\<close> has no \<open>catch\<close>: a rejection of the
  backend call, or an exception of the callback, is an unhandled rejection.
\<close>

definition onFilePositionChange_settled :: "string + js_object \<Rightarrow> view_state \<Rightarrow> view_state" where
  "onFilePositionChange_settled outcome st =
     (case getDataInPosition outcome of
        Inl e \<Rightarrow> st\<lparr>unhandled := unhandled st @ [e]\<rparr>
      | Inr f \<Rightarrow>
          (case onFilePositionChange_then f st of
             Inl e \<Rightarrow> st\<lparr>unhandled := unhandled st @ [e]\<rparr>
           | Inr st' \<Rightarrow> st'))"

section \<open>onChange, onSwitchChange and the slider\<close>

definition onChange :: "int \<Rightarrow> view_state \<Rightarrow> view_state" where
  "onChange value st = st\<lparr>fromPosition := value\<rparr>"

definition onSwitchChange :: "bool \<Rightarrow> view_state \<Rightarrow> view_state" where
  "onSwitchChange checked st = st\<lparr>bigEndian := checked\<rparr>"

record slider_props =
  slider_min :: int
  slider_max :: int
  slider_value :: int
  slider_step :: int

definition Slider :: "int \<Rightarrow> int \<Rightarrow> view_state \<Rightarrow> slider_props" where
  "Slider fileSize columns st =
     \<lparr>slider_min = 0, slider_max = fileSize, slider_value = fromPosition st, slider_step = columns\<rparr>"

section \<open>formatter\<close>

text \<open>
  \<open>formatterUpper\<close> and \<open>formatterLower\<close> are imported from another module and are
  parameters here; \<open>hexUpperCase\<close> is an optional boolean prop, compared with \<open>=== true\<close>;
  \<open>value ?? 0\<close> replaces an absent value by zero.
\<close>

definition formatter ::
  "(nat \<Rightarrow> string) \<Rightarrow> (nat \<Rightarrow> string) \<Rightarrow> bool option \<Rightarrow> nat option \<Rightarrow> string" where
  "formatter formatterUpper formatterLower hexUpperCase value =
     (if hexUpperCase = Some True
      then formatterUpper (case value of None \<Rightarrow> 0 | Some v \<Rightarrow> v)
      else formatterLower (case value of None \<Rightarrow> 0 | Some v \<Rightarrow> v))"

text \<open>
  Modelled from the spec: \<open>formatterUpper\<close> and \<open>formatterLower\<close> of \<open>./HexEditView\<close>, a
  module that is not among the sources, with their common helper \<open>hex_bytes\<close>. The display
  formatter renders a number as zero-padded hexadecimal text, two hex digits per
  byte-equivalent unit, in upper or in lower case.
\<close>

function hex_bytes :: "string \<Rightarrow> nat \<Rightarrow> string" where
  "hex_bytes digits n =
     (if n < 256 then [digits ! (n div 16), digits ! (n mod 16)]
      else hex_bytes digits (n div 256) @ [digits ! (n div 16 mod 16), digits ! (n mod 16)])"
  by pat_completeness auto
termination
  by (relation "measure snd") auto

definition formatterUpper :: "nat \<Rightarrow> string" where
  "formatterUpper n = hex_bytes ''0123456789ABCDEF'' n"

definition formatterLower :: "nat \<Rightarrow> string" where
  "formatterLower n = hex_bytes ''0123456789abcdef'' n"

section \<open>The point-decode flow as a trace of events\<close>

text \<open>
  The backend answers a decode request for a file and an offset; the answer of a request
  arrives at some later turn of the event loop, in any order. \<open>Issue v\<close> is a call of
  \<open>onFilePositionChange\<close> with \<open>v\<close>; \<open>Arrive v\<close> is the settling of the promise of the
  request for \<open>v\<close>.
\<close>

datatype decode_event = Issue int | Arrive int

fun decode_step ::
  "(int \<Rightarrow> int \<Rightarrow> string + js_object) \<Rightarrow> int \<Rightarrow> view_state \<Rightarrow> decode_event \<Rightarrow> view_state" where
  "decode_step backend fileIndex st (Issue v) = onFilePositionChange fileIndex v st"
| "decode_step backend fileIndex st (Arrive v) =
     onFilePositionChange_settled (backend fileIndex v) st"

definition decode_run ::
  "(int \<Rightarrow> int \<Rightarrow> string + js_object) \<Rightarrow> int \<Rightarrow> decode_event list \<Rightarrow> view_state \<Rightarrow> view_state" where
  "decode_run backend fileIndex evs st = foldl (decode_step backend fileIndex) st evs"

text \<open>What the inspector shows for a property of the bundle.\<close>

definition displayed :: "view_state \<Rightarrow> string \<Rightarrow> js_value" where
  "displayed st k = (case positionByteValues st of None \<Rightarrow> Undefined | Some b \<Rightarrow> b k)"

text \<open>
  A sample backend: \<open>value_u8\<close> is the text of the byte at the offset (10 at offset 10 and
  20 elsewhere), the UTF-8 properties are the array \<open>["A", "B"]\<close> and the UTF-16 and
  UTF-32 properties are the string \<open>"AB"\<close>.
\<close>

definition sample_bundle :: "int \<Rightarrow> js_object" where
  "sample_bundle pos k =
     (if k = ''value_u8'' then Str (js_str (if pos = 10 then ''10'' else ''20''))
      else if k = ''char_le_utf8'' \<or> k = ''char_be_utf8''
      then Arr [Str (js_str ''A''), Str (js_str ''B'')]
      else if k = ''char_le_utf16'' \<or> k = ''char_le_utf32''
            \<or> k = ''char_be_utf16'' \<or> k = ''char_be_utf32''
      then Str (js_str ''AB'')
      else Undefined)"

definition sample_backend :: "int \<Rightarrow> int \<Rightarrow> string + js_object" where
  "sample_backend fileIndex pos = Inr (sample_bundle pos)"

text \<open>
  A response as the sample backend gives it, except that the little-endian UTF-32
  property is the string of the one character U+1F600, which UTF-16 writes as the
  surrogate pair \<open>0xD83D 0xDE00\<close> (55357 and 56832).
\<close>

definition astral_bundle :: js_object where
  "astral_bundle = (sample_bundle 10)(''char_le_utf32'' := Str [55357, 56832])"

section \<open>readFromPosition\<close>

text \<open>
  \<open>atob\<close>, the forgiving base64 decoder of the platform: drop ASCII whitespace; when the
  length is a multiple of four drop one or two trailing \<open>=\<close>; fail when the length leaves
  the remainder one or a code unit is outside the alphabet; then turn every four sextets
  into three bytes, and a rest of two or three sextets into one or two bytes.
\<close>

definition base64_alphabet :: js_string where
  "base64_alphabet = js_str ''ABCDEFGHIJKLMNOPQRSTUVWXYZabcdefghijklmnopqrstuvwxyz0123456789+/''"

fun index_of :: "'a \<Rightarrow> 'a list \<Rightarrow> nat option" where
  "index_of c [] = None"
| "index_of c (x # xs) =
     (if c = x then Some 0 else (case index_of c xs of None \<Rightarrow> None | Some n \<Rightarrow> Some (Suc n)))"

definition ascii_whitespace :: "nat \<Rightarrow> bool" where
  "ascii_whitespace c = (c = 9 \<or> c = 10 \<or> c = 12 \<or> c = 13 \<or> c = 32)"

definition strip_padding :: "js_string \<Rightarrow> js_string" where
  "strip_padding data =
     (if length data mod 4 = 0 then
        (if 2 \<le> length data \<and> last data = 61 \<and> last (butlast data) = 61
         then butlast (butlast data)
         else if data \<noteq> [] \<and> last data = 61 then butlast data
         else data)
      else data)"

fun sextets :: "js_string \<Rightarrow> nat list option" where
  "sextets [] = Some []"
| "sextets (c # cs) =
     (case index_of c base64_alphabet of
        None \<Rightarrow> None
      | Some v \<Rightarrow> (case sextets cs of None \<Rightarrow> None | Some vs \<Rightarrow> Some (v # vs)))"

fun decode_sextets :: "nat list \<Rightarrow> nat list" where
  "decode_sextets (a # b # c # d # rest) =
     [a * 4 + b div 16, (b mod 16) * 16 + c div 4, (c mod 4) * 64 + d] @ decode_sextets rest"
| "decode_sextets [a, b, c] = [a * 4 + b div 16, (b mod 16) * 16 + c div 4]"
| "decode_sextets [a, b] = [a * 4 + b div 16]"
| "decode_sextets [a] = []"
| "decode_sextets [] = []"

definition atob :: "js_string \<Rightarrow> js_error + js_string" where
  "atob input =
     (let data = filter (\<lambda>c. \<not> ascii_whitespace c) input;
          data = strip_padding data
      in if length data mod 4 = 1 then Inl InvalidCharacterError
         else (case sextets data of
                 None \<Rightarrow> Inl InvalidCharacterError
               | Some vs \<Rightarrow> Inr (decode_sextets vs)))"

text \<open>
  \<open>Uint8Array.from(s, c => c.codePointAt(0) ?? 0)\<close> iterates the string by code points (a
  high surrogate followed by a low surrogate is one code point) and stores each one
  modulo 256.
\<close>

fun code_points :: "js_string \<Rightarrow> nat list" where
  "code_points (h # l # rest) =
     (if 55296 \<le> h \<and> h \<le> 56319 \<and> 56320 \<le> l \<and> l \<le> 57343
      then (65536 + (h - 55296) * 1024 + (l - 56320)) # code_points rest
      else h # code_points (l # rest))"
| "code_points [c] = [c]"
| "code_points [] = []"

definition ToUint8 :: "nat \<Rightarrow> nat" where
  "ToUint8 n = n mod 256"

definition Uint8Array_from :: "js_string \<Rightarrow> nat list" where
  "Uint8Array_from s = map ToUint8 (code_points s)"

text \<open>Calling \<open>readFromPosition\<close> invokes the backend with the current window offset.\<close>

definition readFromPosition :: "int \<Rightarrow> view_state \<Rightarrow> view_state" where
  "readFromPosition fileIndex st =
     st\<lparr>invoked := invoked st @ [read_file fileIndex (fromPosition st)]\<rparr>"

definition readFromPosition_then :: "FileReadResult \<Rightarrow> view_state \<Rightarrow> js_error + view_state" where
  "readFromPosition_then res st =
     (case atob (file_data res) of
        Inl e \<Rightarrow> Inl e
      | Inr s \<Rightarrow>
          (let buff = Uint8Array_from s
           in Inr (st\<lparr>hexData := map Some buff, readError := False\<rparr>)))"

text \<open>\<open>translate(key, undefined, {error})\<close> is the localization hook, a parameter of the model.\<close>

definition readFromPosition_catch ::
  "(string \<Rightarrow> js_error \<Rightarrow> string) \<Rightarrow> js_error \<Rightarrow> view_state \<Rightarrow> view_state" where
  "readFromPosition_catch translate error st =
     st\<lparr>readError := True,
        notified := notified st @ [(''error'', translate ''fileReadFailed'' error)]\<rparr>"

text \<open>The \<open>catch\<close> follows the \<open>then\<close>, so it also receives what the \<open>then\<close> callback throws.\<close>

definition readFromPosition_settled ::
  "(string \<Rightarrow> js_error \<Rightarrow> string) \<Rightarrow> string + FileReadResult \<Rightarrow> view_state \<Rightarrow> view_state" where
  "readFromPosition_settled translate outcome st =
     (case readFile outcome of
        Inl e \<Rightarrow> readFromPosition_catch translate e st
      | Inr res \<Rightarrow>
          (case readFromPosition_then res st of
             Inl e \<Rightarrow> readFromPosition_catch translate e st
           | Inr st' \<Rightarrow> st'))"

text \<open>
  Modelled from the spec: the transport encoding of the file service, which is not among
  the sources (\<open>to_sextets\<close> and \<open>base64_encode\<close>). It is the printable-safe encoding that
  \<open>atob\<close> reads: base64 with the standard alphabet and \<open>=\<close> padding to a multiple of four
  characters.
\<close>

fun to_sextets :: "nat list \<Rightarrow> nat list" where
  "to_sextets (x # y # z # bs) =
     [x div 4, (x mod 4) * 16 + y div 16, (y mod 16) * 4 + z div 64, z mod 64] @ to_sextets bs"
| "to_sextets [x, y] = [x div 4, (x mod 4) * 16 + y div 16, (y mod 16) * 4]"
| "to_sextets [x] = [x div 4, (x mod 4) * 16]"
| "to_sextets [] = []"

definition base64_encode :: "nat list \<Rightarrow> js_string" where
  "base64_encode bs =
     map (\<lambda>v. base64_alphabet ! v) (to_sextets bs) @ replicate ((3 - length bs mod 3) mod 3) 61"

text \<open>A run of window reads: each outcome of the backend settles one read.\<close>

definition read_run ::
  "(string \<Rightarrow> js_error \<Rightarrow> string) \<Rightarrow> (string + FileReadResult) list \<Rightarrow> view_state \<Rightarrow> view_state" where
  "read_run translate outcomes st =
     foldl (\<lambda>s outcome. readFromPosition_settled translate outcome s) st outcomes"

section \<open>useDebounce\<close>

text \<open>
  Modelled from the spec: \<open>useDebounce\<close> of \<open>../../hooks/UseDebounce\<close>, a module that is not
  among the sources; every definition of this section belongs to that model. On each change of the window offset a pending scheduled read is
  cancelled and a new one is scheduled one settle interval later; a scheduled read whose
  time has come fires \<open>readFromPosition\<close>. The component passes the interval 100. Time
  is a natural number; \<open>pending\<close> is the due time of the scheduled read and \<open>fired\<close> lists
  the times at which a read fired.
\<close>

record debounced =
  view :: view_state
  pending :: "nat option"
  fired :: "nat list"

definition settle_interval :: nat where
  "settle_interval = 100"

definition elapse :: "int \<Rightarrow> nat \<Rightarrow> debounced \<Rightarrow> debounced" where
  "elapse fileIndex t d =
     (case pending d of
        None \<Rightarrow> d
      | Some due \<Rightarrow>
          if due \<le> t
          then d\<lparr>view := readFromPosition fileIndex (view d), pending := None,
                 fired := fired d @ [due]\<rparr>
          else d)"

text \<open>A change is a pair of the time at which it happens and the new window offset.\<close>

definition offset_change :: "int \<Rightarrow> nat \<Rightarrow> debounced \<Rightarrow> nat \<times> int \<Rightarrow> debounced" where
  "offset_change fileIndex interval d c =
     (let d = elapse fileIndex (fst c) d
      in d\<lparr>view := onChange (snd c) (view d), pending := Some (fst c + interval)\<rparr>)"

definition burst :: "int \<Rightarrow> nat \<Rightarrow> (nat \<times> int) list \<Rightarrow> debounced \<Rightarrow> debounced" where
  "burst fileIndex interval cs d = foldl (offset_change fileIndex interval) d cs"

text \<open>Motion stops: no further change comes, and time passes the due time of a pending read.\<close>

definition motion_stops :: "int \<Rightarrow> debounced \<Rightarrow> debounced" where
  "motion_stops fileIndex d =
     (case pending d of None \<Rightarrow> d | Some due \<Rightarrow> elapse fileIndex due d)"

section \<open>Properties of the edit buffer, the offset setter and the formatter\<close>

text \<open>
  C8: for an index inside the edit buffer, \<open>onHexValueChange\<close> replaces exactly the entry at
  that index, leaves every other entry and the length as they were, and changes nothing
  else: the window offset that drives the read, the backend commands invoked (no read and
  no write), the notifications and the decoded bundle are the same.
\<close>

theorem onHexValueChange_frame:
  assumes "i < length (hexData st)"
  shows "hexData (onHexValueChange v i st) ! i = Some v
       \<and> (\<forall>j. j < length (hexData st) \<and> j \<noteq> i \<longrightarrow>
              hexData (onHexValueChange v i st) ! j = hexData st ! j)
       \<and> length (hexData (onHexValueChange v i st)) = length (hexData st)
       \<and> invoked (onHexValueChange v i st) = invoked st
       \<and> fromPosition (onHexValueChange v i st) = fromPosition st
       \<and> onHexValueChange v i st = st\<lparr>hexData := (hexData st)[i := Some v]\<rparr>"
  using assms by (simp add: onHexValueChange_def array_set_def)

theorem onHexValueChange_frame_witness:
  "(3::nat) < length (hexData (initial_state\<lparr>hexData := map Some [1, 2, 3, 4, 5]\<rparr>))
   \<and> hexData (onHexValueChange 255 3 (initial_state\<lparr>hexData := map Some [1, 2, 3, 4, 5]\<rparr>))
       = map Some [1, 2, 3, 255, 5]
   \<and> invoked (onHexValueChange 255 3 (initial_state\<lparr>hexData := map Some [1, 2, 3, 4, 5]\<rparr>)) = []"
proof -
  let ?st = "initial_state\<lparr>hexData := map Some [1, 2, 3, 4, 5]\<rparr>"
  have h: "(3::nat) < length (hexData ?st)" by simp
  from onHexValueChange_frame [OF h, of 255]
  have "onHexValueChange 255 3 ?st = ?st\<lparr>hexData := (hexData ?st)[3 := Some 255]\<rparr>" by blast
  then show ?thesis by (simp add: initial_state_def)
qed

text \<open>
  C3, as the code has it: the window-offset setter \<open>onChange\<close> stores every value it is
  given, unchanged, and changes nothing else; it does not clamp. The resulting window
  offset is the value itself, so it lies between 0 and \<open>fileSize\<close> exactly when the value
  does. The bounds 0 and \<open>fileSize\<close> appear only as the \<open>min\<close> and \<open>max\<close> of the slider that
  calls the setter.
\<close>

theorem onChange_stores_value:
  "onChange v st = st\<lparr>fromPosition := v\<rparr>
   \<and> fromPosition (onChange v st) = v
   \<and> ((0 \<le> fromPosition (onChange v st) \<and> fromPosition (onChange v st) \<le> fileSize)
        = (0 \<le> v \<and> v \<le> fileSize))
   \<and> slider_min (Slider fileSize columns st) = 0
   \<and> slider_max (Slider fileSize columns st) = fileSize"
  by (simp add: onChange_def Slider_def)

theorem onChange_stores_value_witness:
  "fromPosition (onChange 240 initial_state) = 240
   \<and> fromPosition (onChange (256 + 1000) initial_state) = 1256
   \<and> fromPosition (onChange (- 5) initial_state) = - 5"
  using onChange_stores_value [of 240 initial_state 256 16]
    onChange_stores_value [of "256 + 1000" initial_state 256 16]
    onChange_stores_value [of "- 5" initial_state 256 16]
  by simp

text \<open>
  C3, as the claim states it, fails: with a file of 256 bytes the setter called with
  \<open>256 + 1000\<close> does not yield 256, and called with \<open>-5\<close> it does not yield 0.
\<close>

theorem onChange_does_not_clamp:
  "fromPosition (onChange (256 + 1000) initial_state) \<noteq> 256
   \<and> fromPosition (onChange (- 5) initial_state) \<noteq> 0"
  by (simp add: onChange_def)

text \<open>
  C9: for every value of the case flag the formatter gives, for an absent input, the text
  it gives for zero, whatever the two formatting functions are; with the formatting
  functions of the display formatter an absent input renders as \<open>00\<close> in both cases, and
  \<open>0x0A\<close> in upper case renders as \<open>0A\<close>.
\<close>

theorem formatter_absent_is_zero:
  "formatter fU fL hexUpperCase None = formatter fU fL hexUpperCase (Some 0)
   \<and> formatter formatterUpper formatterLower (Some False) None = ''00''
   \<and> formatter formatterUpper formatterLower (Some True) None = ''00''
   \<and> formatter formatterUpper formatterLower (Some True) (Some 10) = ''0A''"
  by (simp add: formatter_def formatterUpper_def formatterLower_def)

section \<open>Properties of the point-decode flow\<close>

lemma index0_sequence: "is_sequence v \<Longrightarrow> index0 v = Inr (projr (index0 v))"
  by (cases v rule: index0.cases) simp_all

lemma settled_success:
  assumes "is_sequence (f ''char_le_utf8'')" and "is_sequence (f ''char_le_utf16'')"
    and "is_sequence (f ''char_le_utf32'')" and "is_sequence (f ''char_be_utf8'')"
    and "is_sequence (f ''char_be_utf16'')" and "is_sequence (f ''char_be_utf32'')"
  shows "onFilePositionChange_settled (Inr f) st =
     st\<lparr>positionByteValues := Some (f(
        ''char_le_utf8'' := projr (index0 (f ''char_le_utf8'')),
        ''char_le_utf16'' := projr (index0 (f ''char_le_utf16'')),
        ''char_le_utf32'' := projr (index0 (f ''char_le_utf32'')),
        ''char_be_utf8'' := projr (index0 (f ''char_be_utf8'')),
        ''char_be_utf16'' := projr (index0 (f ''char_be_utf16'')),
        ''char_be_utf32'' := projr (index0 (f ''char_be_utf32''))))\<rparr>"
proof -
  from assms [THEN index0_sequence]
  obtain a b c d e g where "index0 (f ''char_le_utf8'') = Inr a"
    "index0 (f ''char_le_utf16'') = Inr b" "index0 (f ''char_le_utf32'') = Inr c"
    "index0 (f ''char_be_utf8'') = Inr d" "index0 (f ''char_be_utf16'') = Inr e"
    "index0 (f ''char_be_utf32'') = Inr g"
    by blast
  then show ?thesis
    by (simp add: onFilePositionChange_settled_def getDataInPosition_def
        onFilePositionChange_then_def)
qed

lemma sample_sequences:
  "is_sequence (sample_bundle p ''char_le_utf8'')" "is_sequence (sample_bundle p ''char_le_utf16'')"
  "is_sequence (sample_bundle p ''char_le_utf32'')" "is_sequence (sample_bundle p ''char_be_utf8'')"
  "is_sequence (sample_bundle p ''char_be_utf16'')" "is_sequence (sample_bundle p ''char_be_utf32'')"
  by (simp_all add: sample_bundle_def)

lemma issue_keeps_bundle:
  "positionByteValues (foldl (decode_step backend fileIndex) st (map Issue vs)) = positionByteValues st"
  by (induction vs arbitrary: st) (simp_all add: onFilePositionChange_def)

lemma decode_rejected:
  "onFilePositionChange_settled (Inl error) st = st\<lparr>unhandled := unhandled st @ [Error error]\<rparr>"
  by (simp add: onFilePositionChange_settled_def getDataInPosition_def)

text \<open>
  C5 at a response whose leading character lies outside the basic plane: the UTF-32
  property of the response is the string of the single character U+1F600. The bundle is
  installed, but what it holds for that property is \<open>[0]\<close> of the string, its first UTF-16
  code unit: the lone high surrogate 55357, which is not the leading decoded character
  128512 of the property. The other properties are installed as for the sample backend.
\<close>

theorem decode_installs_lone_surrogate:
  "astral_bundle ''char_le_utf32'' = Str [55357, 56832]
   \<and> code_points [55357, 56832] = [128512]
   \<and> displayed (onFilePositionChange_settled (Inr astral_bundle) initial_state) ''char_le_utf32''
       = Str [55357]
   \<and> code_points [55357] \<noteq> [128512]
   \<and> displayed (onFilePositionChange_settled (Inr astral_bundle) initial_state) ''char_le_utf8''
       = Str (js_str ''A'')
   \<and> displayed (onFilePositionChange_settled (Inr astral_bundle) initial_state) ''value_u8''
       = Str (js_str ''10'')
   \<and> unhandled (onFilePositionChange_settled (Inr astral_bundle) initial_state) = []"
  by (simp add: astral_bundle_def sample_bundle_def onFilePositionChange_settled_def
      getDataInPosition_def onFilePositionChange_then_def displayed_def js_str_def
      initial_state_def)

text \<open>
  C1, as the code has it: every response that arrives is installed, so the installed
  bundle reflects the response that arrived last, whatever was issued after its request.
  After any events, once the well-formed response for offset \<open>a\<close> has arrived (and
  whatever requests are issued afterwards), the bundle is the one of a lone request for
  \<open>a\<close>. The bundle reflects the last-issued offset only when its response arrives last.
\<close>

theorem decode_last_arrived_wins:
  assumes "backend fileIndex a = Inr f"
    and "is_sequence (f ''char_le_utf8'')" and "is_sequence (f ''char_le_utf16'')"
    and "is_sequence (f ''char_le_utf32'')" and "is_sequence (f ''char_be_utf8'')"
    and "is_sequence (f ''char_be_utf16'')" and "is_sequence (f ''char_be_utf32'')"
  shows "positionByteValues (decode_run backend fileIndex (evs @ [Arrive a] @ map Issue vs) st)
       = positionByteValues (decode_run backend fileIndex [Issue a, Arrive a] initial_state)"
  using assms(1) settled_success [OF assms(2-7)]
  by (simp add: decode_run_def issue_keeps_bundle)

theorem decode_last_arrived_wins_witness:
  "sample_backend 0 10 = Inr (sample_bundle 10)
   \<and> is_sequence (sample_bundle 10 ''char_le_utf8'') \<and> is_sequence (sample_bundle 10 ''char_le_utf16'')
   \<and> is_sequence (sample_bundle 10 ''char_le_utf32'') \<and> is_sequence (sample_bundle 10 ''char_be_utf8'')
   \<and> is_sequence (sample_bundle 10 ''char_be_utf16'') \<and> is_sequence (sample_bundle 10 ''char_be_utf32'')
   \<and> positionByteValues (decode_run sample_backend 0 [Issue 10, Issue 20, Arrive 20, Arrive 10] initial_state)
       = positionByteValues (decode_run sample_backend 0 [Issue 10, Arrive 10] initial_state)"
proof -
  have h: "sample_backend 0 10 = Inr (sample_bundle 10)" by (simp add: sample_backend_def)
  from decode_last_arrived_wins [where backend = sample_backend and fileIndex = 0 and a = 10
      and f = "sample_bundle 10" and evs = "[Issue 10, Issue 20, Arrive 20]" and vs = "[]"
      and st = initial_state]
  show ?thesis using h sample_sequences [of 10] by simp
qed

text \<open>
  C1, as the claim states it, fails: requests are issued for offset 10 and then for
  offset 20, the response for 20 arrives and then the response for 10. The inspector then
  shows the byte of offset 10, not the byte of offset 20 that a lone request for 20 shows.
\<close>

theorem stale_response_overwrites:
  "displayed (decode_run sample_backend 0 [Issue 10, Issue 20, Arrive 20, Arrive 10] initial_state) ''value_u8''
     = Str (js_str ''10'')
   \<and> displayed (decode_run sample_backend 0 [Issue 20, Arrive 20] initial_state) ''value_u8''
     = Str (js_str ''20'')
   \<and> displayed (decode_run sample_backend 0 [Issue 10, Issue 20, Arrive 20, Arrive 10] initial_state) ''value_u8''
     \<noteq> displayed (decode_run sample_backend 0 [Issue 20, Arrive 20] initial_state) ''value_u8''"
  by (simp add: decode_run_def sample_backend_def settled_success [OF sample_sequences]
      onFilePositionChange_def displayed_def sample_bundle_def js_str_def)

text \<open>
  C2 at a failing decode: a bundle for offset 10 is displayed, a request for offset 20 is
  issued and the backend rejects it with \<open>file not open\<close>. The displayed bundle stays, but
  the \<open>notification\<close> prop is never called: the rejection, wrapped in an \<open>Error\<close>, ends as
  an unhandled rejection.
\<close>

theorem decode_failure_not_notified:
  "notified (onFilePositionChange_settled (Inl ''file not open'')
       (decode_run sample_backend 0 [Issue 10, Arrive 10, Issue 20] initial_state)) = []
   \<and> unhandled (onFilePositionChange_settled (Inl ''file not open'')
       (decode_run sample_backend 0 [Issue 10, Arrive 10, Issue 20] initial_state)) = [Error ''file not open'']
   \<and> positionByteValues (onFilePositionChange_settled (Inl ''file not open'')
       (decode_run sample_backend 0 [Issue 10, Arrive 10, Issue 20] initial_state))
     = positionByteValues (decode_run sample_backend 0 [Issue 10, Arrive 10, Issue 20] initial_state)"
  by (simp add: decode_rejected decode_run_def sample_backend_def settled_success [OF sample_sequences]
      onFilePositionChange_def initial_state_def)

section \<open>Properties of the window read\<close>

subsection \<open>Arithmetic of sextets and bytes\<close>

lemma hi_div: "b < 16 \<Longrightarrow> (a * 16 + b) div 16 = (a::nat)" by simp
lemma hi_mod: "b < 16 \<Longrightarrow> (a * 16 + b) mod 16 = (b::nat)" by simp
lemma q1: "(y::nat) < 256 \<Longrightarrow> y div 16 < 16" by (simp add: less_mult_imp_div_less)
lemma q2: "(z::nat) < 256 \<Longrightarrow> z div 64 < 4" by (simp add: less_mult_imp_div_less)
lemma q3: "(x::nat) < 256 \<Longrightarrow> x div 4 < 64" by (simp add: less_mult_imp_div_less)
lemma a1: "y < 256 \<Longrightarrow> (x::nat) div 4 * 4 + (x mod 4 * 16 + y div 16) div 16 = x"
  by (simp add: q1)
lemma a2: "y < 256 \<Longrightarrow> z < 256 \<Longrightarrow> (x mod 4 * 16 + y div 16) mod 16 * 16 + (y mod 16 * 4 + z div 64) div 4 = (y::nat)"
  by (simp add: q1 q2)
lemma a3: "z < 256 \<Longrightarrow> (y mod 16 * 4 + z div 64) mod 4 * 64 + z mod 64 = (z::nat)"
  by (simp add: q2)
lemma a4: "y < 256 \<Longrightarrow> (x mod 4 * 16 + y div 16) mod 16 * 16 + (y mod 16 * 4) div 4 = (y::nat)"
  by (simp add: q1)
lemma a5: "(x::nat) div 4 * 4 + (x mod 4 * 16) div 16 = x"
  by simp
lemma r1: "y < 256 \<Longrightarrow> (x::nat) mod 4 * 16 + y div 16 < 64"
  using q1 [of y] by (simp add: less_mult_imp_div_less) 
lemma r2: "z < 256 \<Longrightarrow> (y::nat) mod 16 * 4 + z div 64 < 64"
  using q2 [of z] by simp
lemma r3: "(y::nat) mod 16 * 4 < 64" by simp
lemma r4: "(y::nat) mod 4 * 16 < 64" by simp

lemma shift4: "(a + 4 + k) mod 4 = (a + k) mod (4::nat)"
proof -
  have "a + 4 + k = (a + k) + 4" by simp
  then show ?thesis by (simp only: mod_add_self2)
qed
lemma to_sextets_length:
  "(length (to_sextets bs) + (3 - length bs mod 3) mod 3) mod 4 = 0"
proof (induction bs rule: to_sextets.induct)
  case (1 x y z bs)
  have "length (x # y # z # bs) = length bs + 3" by simp
  then have m: "length (x # y # z # bs) mod 3 = length bs mod 3" by (simp del: length_Cons)
  have "length (to_sextets (x # y # z # bs)) = length (to_sextets bs) + 4" by simp
  with m 1 show ?case by (simp only: shift4)
qed simp_all

lemma to_sextets_nonempty: "bs \<noteq> [] \<Longrightarrow> to_sextets bs \<noteq> []"
  by (cases bs rule: to_sextets.cases) simp_all

lemma code_points_latin1: "\<forall>c \<in> set s. c < 256 \<Longrightarrow> code_points s = s"
  by (induction s rule: code_points.induct) simp_all

lemma Uint8Array_from_latin1: "\<forall>c \<in> set s. c < 256 \<Longrightarrow> Uint8Array_from s = s"
  by (simp add: Uint8Array_from_def code_points_latin1 ToUint8_def map_idI)

lemma Uint8Array_from_range: "\<forall>b \<in> set (Uint8Array_from s). b < 256"
  by (simp add: Uint8Array_from_def ToUint8_def)

lemma strip_padding_body:
  assumes "k \<le> 2" and "(length body + k) mod 4 = 0" and "0 < k \<longrightarrow> body \<noteq> []"
    and "body \<noteq> [] \<longrightarrow> last body \<noteq> 61"
  shows "strip_padding (body @ replicate k 61) = body"
proof -
  from assms(1) consider "k = 0" | "k = 1" | "k = 2" by linarith
  then show ?thesis
  proof cases
    case 1
    with assms show ?thesis by (auto simp add: strip_padding_def)
  next
    case 2
    with assms have "body \<noteq> []" "last body \<noteq> 61" by simp_all
    with 2 assms(2) show ?thesis by (simp add: strip_padding_def butlast_append)
  next
    case 3
    then have r: "replicate k (61::nat) = [61, 61]" by (simp add: numeral_2_eq_2)
    from 3 assms(2) show ?thesis unfolding r by (simp add: strip_padding_def butlast_append)
  qed
qed

subsection \<open>Decoding the transport encoding\<close>

lemma base64_alphabet_length: "length base64_alphabet = 64"
  by (simp add: base64_alphabet_def js_str_def)

lemma base64_alphabet_distinct: "distinct base64_alphabet"
  by (simp add: base64_alphabet_def js_str_def)

lemma base64_alphabet_plain:
  "c \<in> set base64_alphabet \<Longrightarrow> \<not> ascii_whitespace c \<and> c \<noteq> 61"
  by (auto simp add: base64_alphabet_def js_str_def ascii_whitespace_def)

lemma index_of_nth: "distinct xs \<Longrightarrow> n < length xs \<Longrightarrow> index_of (xs ! n) xs = Some n"
proof (induction xs arbitrary: n)
  case Nil
  then show ?case by simp
next
  case (Cons x xs)
  show ?case
  proof (cases n)
    case 0
    then show ?thesis by simp
  next
    case (Suc m)
    with Cons.prems have "m < length xs" "distinct xs" "xs ! m \<noteq> x" by auto
    with Cons.IH [of m] Suc show ?thesis by simp
  qed
qed

lemma sextets_of_alphabet:
  "\<forall>v \<in> set vs. v < 64 \<Longrightarrow> sextets (map (\<lambda>v. base64_alphabet ! v) vs) = Some vs"
  by (induction vs)
     (simp_all add: index_of_nth base64_alphabet_distinct base64_alphabet_length)

lemma to_sextets_range:
  "\<forall>b \<in> set bs. b < 256 \<Longrightarrow> \<forall>v \<in> set (to_sextets bs). v < 64"
  by (induction bs rule: to_sextets.induct) (simp_all add: q3 r1 r2 r3 r4)

lemma decode_to_sextets:
  "\<forall>b \<in> set bs. b < 256 \<Longrightarrow> decode_sextets (to_sextets bs) = bs"
proof (induction bs rule: to_sextets.induct)
  case (1 x y z bs)
  then have y: "y < 256" and z: "z < 256" and IH: "decode_sextets (to_sextets bs) = bs"
    by simp_all
  show ?case
    by (simp only: to_sextets.simps decode_sextets.simps append_Cons append_Nil
        a1 [OF y] a2 [OF y z] a3 [OF z] IH)
next
  case (2 x y)
  then have y: "y < 256" by simp
  show ?case
    by (simp only: to_sextets.simps decode_sextets.simps a1 [OF y] a4 [OF y])
next
  case (3 x)
  show ?case
    by (simp only: to_sextets.simps decode_sextets.simps a5)
next
  case 4
  show ?case by simp
qed

lemma rem_not_one: "k \<le> 2 \<Longrightarrow> (n + k) mod 4 = 0 \<Longrightarrow> n mod 4 \<noteq> (1::nat)"
  by presburger

lemma atob_base64_encode:
  assumes "\<forall>b \<in> set bs. b < 256"
  shows "atob (base64_encode bs) = Inr bs"
proof -
  let ?body = "map (\<lambda>v. base64_alphabet ! v) (to_sextets bs)"
  let ?k = "(3 - length bs mod 3) mod 3"
  have range: "\<forall>v \<in> set (to_sextets bs). v < 64"
    using assms by (rule to_sextets_range)
  have plain: "\<forall>c \<in> set ?body. \<not> ascii_whitespace c \<and> c \<noteq> 61"
    using range by (auto simp add: base64_alphabet_length intro!: base64_alphabet_plain)
  have "\<not> ascii_whitespace 61" by (simp add: ascii_whitespace_def)
  with plain have unfiltered:
    "filter (\<lambda>c. \<not> ascii_whitespace c) (?body @ replicate ?k 61) = ?body @ replicate ?k 61"
    by (simp add: filter_id_conv)
  have k: "?k \<le> 2" by simp
  have len: "(length ?body + ?k) mod 4 = 0"
    using to_sextets_length [of bs] by simp
  have nonempty: "0 < ?k \<longrightarrow> ?body \<noteq> []"
  proof
    assume "0 < ?k"
    then have "bs \<noteq> []" by auto
    then show "?body \<noteq> []" by (simp add: to_sextets_nonempty)
  qed
  have last_body: "?body \<noteq> [] \<longrightarrow> last ?body \<noteq> 61"
    using plain last_in_set [of ?body] by blast
  have stripped: "strip_padding (?body @ replicate ?k 61) = ?body"
    using k len nonempty last_body by (rule strip_padding_body)
  have not_one: "length ?body mod 4 \<noteq> 1"
    using k len by (rule rem_not_one)
  have "sextets ?body = Some (to_sextets bs)"
    using range by (rule sextets_of_alphabet)
  with unfiltered stripped not_one show ?thesis
    by (simp add: atob_def base64_encode_def decode_to_sextets [OF assms])
qed

text \<open>
  C4: when a window read fails, the edit buffer is left as it was, the error flag is set
  and the \<open>notification\<close> prop is called once, at level \<open>error\<close>, with the translated
  message made from the causing error; nothing else changes. A rejection \<open>cause\<close> of the
  backend reaches the message wrapped as \<open>Error cause\<close>; a payload that \<open>atob\<close> rejects
  takes the same path with the exception of \<open>atob\<close>.
\<close>

theorem read_failure_keeps_buffer:
  "readFromPosition_settled translate (Inl cause) st
     = st\<lparr>readError := True,
          notified := notified st @ [(''error'', translate ''fileReadFailed'' (Error cause))]\<rparr>
   \<and> hexData (readFromPosition_settled translate (Inl cause) st) = hexData st
   \<and> (atob (file_data res) = Inl e \<longrightarrow>
        readFromPosition_settled translate (Inr res) st
          = st\<lparr>readError := True,
               notified := notified st @ [(''error'', translate ''fileReadFailed'' e)]\<rparr>
        \<and> hexData (readFromPosition_settled translate (Inr res) st) = hexData st)"
  by (simp add: readFromPosition_settled_def readFile_def readFromPosition_then_def
      readFromPosition_catch_def)

theorem read_failure_keeps_buffer_witness:
  "atob (file_data \<lparr>file_index = 0, file_data = js_str ''A''\<rparr>) = Inl InvalidCharacterError
   \<and> hexData (readFromPosition_settled (\<lambda>k e. k) (Inr \<lparr>file_index = 0, file_data = js_str ''A''\<rparr>)
        (initial_state\<lparr>hexData := map Some [1, 2, 3]\<rparr>)) = map Some [1, 2, 3]
   \<and> readError (readFromPosition_settled (\<lambda>k e. k) (Inr \<lparr>file_index = 0, file_data = js_str ''A''\<rparr>)
        (initial_state\<lparr>hexData := map Some [1, 2, 3]\<rparr>))
   \<and> notified (readFromPosition_settled (\<lambda>k e. k) (Inr \<lparr>file_index = 0, file_data = js_str ''A''\<rparr>)
        (initial_state\<lparr>hexData := map Some [1, 2, 3]\<rparr>)) = [(''error'', ''fileReadFailed'')]
   \<and> notified (readFromPosition_settled (\<lambda>k e. case e of Error m \<Rightarrow> k @ '': '' @ m | _ \<Rightarrow> k)
        (Inl ''file not open'') initial_state) = [(''error'', ''fileReadFailed: file not open'')]"
proof -
  have bad: "atob (file_data \<lparr>file_index = 0, file_data = js_str ''A''\<rparr>) = Inl InvalidCharacterError"
    by code_simp
  from read_failure_keeps_buffer [of "\<lambda>k e. k" "''file not open''"
      "initial_state\<lparr>hexData := map Some [1, 2, 3]\<rparr>"
      "\<lparr>file_index = 0, file_data = js_str ''A''\<rparr>" InvalidCharacterError] bad
  have "readFromPosition_settled (\<lambda>k e. k) (Inr \<lparr>file_index = 0, file_data = js_str ''A''\<rparr>)
        (initial_state\<lparr>hexData := map Some [1, 2, 3]\<rparr>)
      = initial_state\<lparr>hexData := map Some [1, 2, 3], readError := True,
          notified := notified (initial_state\<lparr>hexData := map Some [1, 2, 3]\<rparr>) @ [(''error'', ''fileReadFailed'')]\<rparr>"
    by simp
  moreover from read_failure_keeps_buffer
      [of "\<lambda>k e. case e of Error m \<Rightarrow> k @ '': '' @ m | _ \<Rightarrow> k" "''file not open''" initial_state]
  have "notified (readFromPosition_settled (\<lambda>k e. case e of Error m \<Rightarrow> k @ '': '' @ m | _ \<Rightarrow> k)
        (Inl ''file not open'') initial_state) = [(''error'', ''fileReadFailed: file not open'')]"
    by (simp add: initial_state_def)
  ultimately show ?thesis using bad by (simp add: initial_state_def)
qed

text \<open>
  C6: for every sequence of bytes (values 0 to 255), a successful window read whose
  payload is the transport encoding of the sequence replaces the edit buffer by exactly
  that sequence: the same length, the same bytes in the same order, each at most 255. The
  error flag is cleared and nothing else changes.
\<close>

theorem window_read_installs_bytes:
  assumes "\<forall>b \<in> set bs. b < 256"
  shows "readFromPosition_settled translate (Inr \<lparr>file_index = i, file_data = base64_encode bs\<rparr>) st
           = st\<lparr>hexData := map Some bs, readError := False\<rparr>
       \<and> length (hexData (readFromPosition_settled translate
            (Inr \<lparr>file_index = i, file_data = base64_encode bs\<rparr>) st)) = length bs
       \<and> (\<forall>n < length bs. hexData (readFromPosition_settled translate
            (Inr \<lparr>file_index = i, file_data = base64_encode bs\<rparr>) st) ! n = Some (bs ! n)
            \<and> bs ! n \<le> 255)"
proof -
  have "readFromPosition_settled translate (Inr \<lparr>file_index = i, file_data = base64_encode bs\<rparr>) st
           = st\<lparr>hexData := map Some bs, readError := False\<rparr>"
    by (simp add: readFromPosition_settled_def readFile_def readFromPosition_then_def
        atob_base64_encode [OF assms] Uint8Array_from_latin1 [OF assms])
  moreover have "\<forall>n < length bs. bs ! n \<le> 255"
    using assms by (auto simp add: less_Suc_eq_le dest!: nth_mem)
  ultimately show ?thesis by simp
qed


theorem window_read_installs_bytes_witness:
  "base64_encode [1, 2, 3, 255, 0] = js_str ''AQID/wA=''
   \<and> hexData (readFromPosition_settled (\<lambda>k e. k) (Inr \<lparr>file_index = 0, file_data = js_str ''AQID/wA=''\<rparr>)
        (initial_state\<lparr>hexData := map Some [9, 9]\<rparr>)) = map Some [1, 2, 3, 255, 0]"
proof -
  have enc: "base64_encode [1, 2, 3, 255, 0] = js_str ''AQID/wA=''" by code_simp
  have h: "\<forall>b \<in> set [1, 2, 3, 255, 0 :: nat]. b < 256" by simp
  from window_read_installs_bytes [OF h, of "\<lambda>k e. k" 0 "initial_state\<lparr>hexData := map Some [9, 9]\<rparr>"]
  have "readFromPosition_settled (\<lambda>k e. k) (Inr \<lparr>file_index = 0, file_data = js_str ''AQID/wA=''\<rparr>)
        (initial_state\<lparr>hexData := map Some [9, 9]\<rparr>)
      = initial_state\<lparr>hexData := map Some [9, 9], hexData := map Some [1, 2, 3, 255, 0],
          readError := False\<rparr>"
    unfolding enc by blast
  then show ?thesis using enc by simp
qed

text \<open>
  C10: every buffer that the read path produces holds bytes only. Starting from the empty
  buffer of the mounted component, after any run of settled window reads, successful or
  failed, every cell of the edit buffer is a number and at most 255; and whatever the
  buffer was before, the buffer installed by a successful read has this property.
\<close>

lemma then_bytes:
  assumes "readFromPosition_then res st = Inr st'"
  shows "\<forall>c \<in> set (hexData st'). \<exists>b. c = Some b \<and> b \<le> 255"
proof (cases "atob (file_data res)")
  case (Inl e)
  with assms show ?thesis by (simp add: readFromPosition_then_def)
next
  case (Inr s)
  with assms have "hexData st' = map Some (Uint8Array_from s)"
    by (auto simp add: readFromPosition_then_def)
  moreover have "\<forall>b \<in> set (Uint8Array_from s). b \<le> 255"
    by (simp add: Uint8Array_from_def ToUint8_def less_Suc_eq_le [symmetric])
  ultimately show ?thesis by auto
qed

lemma settled_bytes:
  assumes "\<forall>c \<in> set (hexData st). \<exists>b. c = Some b \<and> b \<le> 255"
  shows "\<forall>c \<in> set (hexData (readFromPosition_settled translate outcome st)). \<exists>b. c = Some b \<and> b \<le> 255"
proof (cases "readFile outcome")
  case (Inl e)
  with assms show ?thesis
    by (simp add: readFromPosition_settled_def readFromPosition_catch_def)
next
  case (Inr res)
  show ?thesis
  proof (cases "readFromPosition_then res st")
    case (Inl e)
    with Inr assms show ?thesis
      by (simp add: readFromPosition_settled_def readFromPosition_catch_def)
  next
    case st': (Inr st')
    with Inr then_bytes [OF st'] show ?thesis
      by (simp add: readFromPosition_settled_def)
  qed
qed

lemma read_run_bytes:
  "\<forall>c \<in> set (hexData st). \<exists>b. c = Some b \<and> b \<le> 255 \<Longrightarrow>
   \<forall>c \<in> set (hexData (read_run translate outcomes st)). \<exists>b. c = Some b \<and> b \<le> 255"
  unfolding read_run_def
proof (induction outcomes arbitrary: st)
  case Nil
  then show ?case by simp
next
  case (Cons outcome outcomes)
  from settled_bytes [OF Cons.prems, of translate outcome]
  show ?case by (simp add: Cons.IH)
qed

theorem read_path_buffer_is_bytes:
  "(\<forall>c \<in> set (hexData (read_run translate outcomes initial_state)). \<exists>b. c = Some b \<and> b \<le> 255)
   \<and> (readFromPosition_then res st = Inr st' \<longrightarrow>
        (\<forall>c \<in> set (hexData st'). \<exists>b. c = Some b \<and> b \<le> 255))"
proof -
  have "\<forall>c \<in> set (hexData initial_state). \<exists>b. c = Some b \<and> b \<le> 255"
    by (simp add: initial_state_def)
  then show ?thesis using read_run_bytes then_bytes by blast
qed


theorem read_path_buffer_is_bytes_witness:
  "hexData (read_run (\<lambda>k e. k)
       [Inr \<lparr>file_index = 0, file_data = js_str ''AQID''\<rparr>, Inl ''file not open''] initial_state)
     = [Some 1, Some 2, Some 3]
   \<and> (\<exists>b. hexData (read_run (\<lambda>k e. k)
       [Inr \<lparr>file_index = 0, file_data = js_str ''AQID''\<rparr>, Inl ''file not open''] initial_state) ! 2
         = Some b \<and> b \<le> 255)
   \<and> readFromPosition_then \<lparr>file_index = 0, file_data = js_str ''/w==''\<rparr>
        (initial_state\<lparr>hexData := [None, Some 700]\<rparr>)
       = Inr (initial_state\<lparr>hexData := [Some 255]\<rparr>)
   \<and> (\<exists>b. hexData (initial_state\<lparr>hexData := [Some 255]\<rparr>) ! 0 = Some b \<and> b \<le> 255)"
proof -
  let ?run = "read_run (\<lambda>k e. k)
       [Inr \<lparr>file_index = 0, file_data = js_str ''AQID''\<rparr>, Inl ''file not open''] initial_state"
  have run: "hexData ?run = [Some 1, Some 2, Some 3]"
    by (simp add: read_run_def readFromPosition_settled_def readFile_def readFromPosition_then_def
        readFromPosition_catch_def atob_def strip_padding_def js_str_def base64_alphabet_def
        ascii_whitespace_def Uint8Array_from_def ToUint8_def initial_state_def)
  have thn: "readFromPosition_then \<lparr>file_index = 0, file_data = js_str ''/w==''\<rparr>
        (initial_state\<lparr>hexData := [None, Some 700]\<rparr>)
       = Inr (initial_state\<lparr>hexData := [Some 255]\<rparr>)"
    by (simp add: readFromPosition_then_def atob_def strip_padding_def js_str_def
        base64_alphabet_def ascii_whitespace_def Uint8Array_from_def ToUint8_def initial_state_def)
  from read_path_buffer_is_bytes [of "\<lambda>k e. k"
      "[Inr \<lparr>file_index = 0, file_data = js_str ''AQID''\<rparr>, Inl ''file not open'']"
      "\<lparr>file_index = 0, file_data = js_str ''/w==''\<rparr>"
      "initial_state\<lparr>hexData := [None, Some 700]\<rparr>" "initial_state\<lparr>hexData := [Some 255]\<rparr>"] thn
  have a: "\<forall>c \<in> set (hexData ?run). \<exists>b. c = Some b \<and> b \<le> 255"
    and b: "\<forall>c \<in> set (hexData (initial_state\<lparr>hexData := [Some 255]\<rparr>)). \<exists>b. c = Some b \<and> b \<le> 255"
    by blast+
  have "hexData ?run ! 2 \<in> set (hexData ?run)" unfolding run by simp
  with a have "\<exists>b. hexData ?run ! 2 = Some b \<and> b \<le> 255" by blast
  moreover from b have "\<exists>b. hexData (initial_state\<lparr>hexData := [Some 255]\<rparr>) ! 0 = Some b \<and> b \<le> 255"
    by simp
  ultimately show ?thesis using run thn by blast
qed

section \<open>Properties of the debounced read\<close>

lemma burst_coalesces:
  assumes "cs \<noteq> []"
    and "\<forall>c \<in> set cs. lo \<le> fst c \<and> fst c < lo + interval"
    and "case pending d of None \<Rightarrow> True | Some due \<Rightarrow> lo + interval \<le> due"
  shows "burst fileIndex interval cs d =
           d\<lparr>view := (view d)\<lparr>fromPosition := snd (last cs)\<rparr>,
             pending := Some (fst (last cs) + interval)\<rparr>"
  using assms
proof (induction cs arbitrary: d)
  case Nil
  then show ?case by simp
next
  case (Cons c cs)
  let ?d = "d\<lparr>view := onChange (snd c) (view d), pending := Some (fst c + interval)\<rparr>"
  from Cons.prems have quiet: "elapse fileIndex (fst c) d = d"
    by (auto simp add: elapse_def split: option.splits)
  then have step: "offset_change fileIndex interval d c = ?d"
    by (simp add: offset_change_def)
  show ?case
  proof (cases "cs = []")
    case True
    with step show ?thesis by (simp add: burst_def onChange_def)
  next
    case False
    have "burst fileIndex interval cs ?d =
        ?d\<lparr>view := (view ?d)\<lparr>fromPosition := snd (last cs)\<rparr>,
           pending := Some (fst (last cs) + interval)\<rparr>"
      using False Cons.prems(2) by (intro Cons.IH) simp_all
    with step False show ?thesis by (simp add: burst_def onChange_def)
  qed
qed

lemma sorted_le_last: "sorted xs \<Longrightarrow> x \<in> set xs \<Longrightarrow> x \<le> last (xs :: nat list)"
  by (induction xs) auto

lemma sorted_hd_le: "sorted xs \<Longrightarrow> x \<in> set xs \<Longrightarrow> hd xs \<le> (x :: nat)"
  by (cases xs) auto

lemma sorted_within:
  assumes "sorted (map fst cs)" and "cs \<noteq> []" and "fst (last cs) < fst (hd cs) + interval"
  shows "\<forall>c \<in> set cs. fst (hd cs) \<le> fst c \<and> fst c < fst (hd cs) + (interval::nat)"
proof
  fix c :: "nat \<times> 'a"
  assume "c \<in> set cs"
  then have mem: "fst c \<in> set (map fst cs)" by simp
  have "last (map fst cs) = fst (last cs)" "hd (map fst cs) = fst (hd cs)"
    using assms(2) by (simp_all add: last_map hd_map)
  with sorted_le_last [OF assms(1) mem] sorted_hd_le [OF assms(1) mem]
  have "fst (hd cs) \<le> fst c" "fst c \<le> fst (last cs)" by simp_all
  with assms(3) show "fst (hd cs) \<le> fst c \<and> fst c < fst (hd cs) + interval" by simp
qed

text \<open>
  C7: a burst of one or more window-offset changes, in time order and all within one
  settle interval (100) of the first, with no read scheduled before it, results in
  exactly one call of the window read: it fires once motion has stopped, one settle
  interval after the last change, and reads at the offset of the last change.
\<close>

theorem debounce_coalesces_burst:
  assumes "cs \<noteq> []" and "sorted (map fst cs)"
    and "fst (last cs) < fst (hd cs) + settle_interval"
    and "pending d = None"
  shows "fired (motion_stops fileIndex (burst fileIndex settle_interval cs d))
           = fired d @ [fst (last cs) + settle_interval]
       \<and> invoked (view (motion_stops fileIndex (burst fileIndex settle_interval cs d)))
           = invoked (view d) @ [read_file fileIndex (snd (last cs))]
       \<and> pending (motion_stops fileIndex (burst fileIndex settle_interval cs d)) = None
       \<and> settle_interval = 100"
proof -
  have "burst fileIndex settle_interval cs d =
           d\<lparr>view := (view d)\<lparr>fromPosition := snd (last cs)\<rparr>,
             pending := Some (fst (last cs) + settle_interval)\<rparr>"
    using assms(1) sorted_within [OF assms(2,1,3)] assms(4)
    by (intro burst_coalesces [where lo = "fst (hd cs)"]) simp_all
  then show ?thesis
    by (simp add: motion_stops_def elapse_def readFromPosition_def settle_interval_def)
qed


theorem debounce_coalesces_burst_witness:
  "[(0, 16), (30, 32), (99, 240)] \<noteq> ([] :: (nat \<times> int) list)
   \<and> sorted (map fst [(0, 16), (30, 32), (99, 240 :: int)] :: nat list)
   \<and> fst (last [(0, 16), (30, 32), (99, 240 :: int)]) < fst (hd [(0, 16), (30, 32), (99, 240 :: int)]) + settle_interval
   \<and> pending \<lparr>view = initial_state, pending = None, fired = []\<rparr> = None
   \<and> fired (motion_stops 0 (burst 0 settle_interval [(0, 16), (30, 32), (99, 240)]
        \<lparr>view = initial_state, pending = None, fired = []\<rparr>)) = [199]
   \<and> invoked (view (motion_stops 0 (burst 0 settle_interval [(0, 16), (30, 32), (99, 240)]
        \<lparr>view = initial_state, pending = None, fired = []\<rparr>))) = [read_file 0 240]"
proof -
  have h: "[(0, 16), (30, 32), (99, 240)] \<noteq> ([] :: (nat \<times> int) list)"
    "sorted (map fst [(0, 16), (30, 32), (99, 240 :: int)] :: nat list)"
    "fst (last [(0, 16), (30, 32), (99, 240 :: int)]) < fst (hd [(0, 16), (30, 32), (99, 240 :: int)]) + settle_interval"
    "pending \<lparr>view = initial_state, pending = None, fired = []\<rparr> = None"
    by (simp_all add: settle_interval_def)
  from debounce_coalesces_burst [OF h, of 0] h show ?thesis
    by (simp add: initial_state_def)
qed

end
